theory Spec2Isabelle
  imports Complex_Main
begin

section \<open>Data model\<close>

text \<open>
  The module \<^verbatim>\<open>homography.py\<close> works on numpy arrays of floating-point numbers.
  A finite float is modelled by a real number: the arithmetic on finite values is exact
  (rounding and overflow are not modelled). A float that is not finite (an infinity or a
  NaN) arises in this module only from an array division by zero, which numpy performs
  without raising; it is modelled by \<open>None\<close>. A 2-D array is the list of its rows.
  The exceptions the module can raise are values of \<open>error\<close>.
\<close>

datatype error = IndexError | ValueError | ZeroDivisionError | LinAlgError

type_synonym matrix = "real list list"

type_synonym flt = "real option"

type_synonym fmatrix = "flt list list"

text \<open>
  A \<open>2 \<times> N\<close> array of keypoints: the row of x coordinates and the row of y coordinates.
  A numpy array is rectangular, so the two rows have the same length (\<open>wf_points\<close>).
\<close>

type_synonym points = "real list \<times> real list"

definition npoints :: "points \<Rightarrow> nat" where
  "npoints pts = length (fst pts)"

definition wf_points :: "points \<Rightarrow> bool" where
  "wf_points pts = (length (snd pts) = length (fst pts))"

text \<open>The column \<^verbatim>\<open>pts[:, i]\<close>.\<close>

definition point :: "points \<Rightarrow> nat \<Rightarrow> real \<times> real" where
  "point pts i = (fst pts ! i, snd pts ! i)"

definition is_shape :: "nat \<Rightarrow> nat \<Rightarrow> 'a list list \<Rightarrow> bool" where
  "is_shape r c M = (length M = r \<and> list_all (\<lambda>row. length row = c) M)"

definition bindE :: "error + 'a \<Rightarrow> ('a \<Rightarrow> error + 'b) \<Rightarrow> error + 'b" where
  "bindE m f = (case m of Inl e \<Rightarrow> Inl e | Inr x \<Rightarrow> f x)"

subsection \<open>Elementwise float operations\<close>

text \<open>
  Division of finite floats: a zero divisor gives a non-finite quotient and no exception.
  Every other operation keeps a non-finite operand non-finite (\<open>inf - x\<close>, \<open>inf * 0\<close>,
  \<open>inf + x\<close>, \<open>inf ** 2\<close>, \<open>sqrt inf\<close> are each an infinity or a NaN). The square root
  of a negative number is NaN. A comparison \<^verbatim>\<open>e < t\<close> with a finite \<open>t\<close> is false when
  \<open>e\<close> is NaN or \<open>+inf\<close>, the only non-finite values a square root returns.
\<close>

definition fdiv :: "real \<Rightarrow> real \<Rightarrow> flt" where
  "fdiv x y = (if y = 0 then None else Some (x / y))"

definition fsub :: "flt \<Rightarrow> flt \<Rightarrow> flt" where
  "fsub a b = (case (a, b) of (Some x, Some y) \<Rightarrow> Some (x - y) | _ \<Rightarrow> None)"

definition fadd :: "flt \<Rightarrow> flt \<Rightarrow> flt" where
  "fadd a b = (case (a, b) of (Some x, Some y) \<Rightarrow> Some (x + y) | _ \<Rightarrow> None)"

definition fmul :: "flt \<Rightarrow> flt \<Rightarrow> flt" where
  "fmul a b = (case (a, b) of (Some x, Some y) \<Rightarrow> Some (x * y) | _ \<Rightarrow> None)"

definition fsquare :: "flt \<Rightarrow> flt" where
  "fsquare a = (case a of Some x \<Rightarrow> Some (x\<^sup>2) | None \<Rightarrow> None)"

definition fsqrt :: "flt \<Rightarrow> flt" where
  "fsqrt a = (case a of Some x \<Rightarrow> if x < 0 then None else Some (sqrt x) | None \<Rightarrow> None)"

definition fless :: "flt \<Rightarrow> real \<Rightarrow> bool" where
  "fless a t = (case a of Some x \<Rightarrow> x < t | None \<Rightarrow> False)"

definition fsum :: "flt list \<Rightarrow> flt" where
  "fsum xs = foldl fadd (Some 0) xs"

subsection \<open>Matrix products\<close>

text \<open>\<^verbatim>\<open>A @ B\<close> on arrays whose shapes agree; the callers check the shapes.\<close>

definition matmul :: "matrix \<Rightarrow> matrix \<Rightarrow> matrix" where
  "matmul A B = map (\<lambda>r. map (\<lambda>c. sum_list (map2 (*) r c)) (transpose B)) A"

definition fmatmul :: "fmatrix \<Rightarrow> fmatrix \<Rightarrow> fmatrix" where
  "fmatmul A B = map (\<lambda>r. map (\<lambda>c. fsum (map2 fmul r c)) (transpose B)) A"

section \<open>count_homography_inliers\<close>

text \<open>
  \<^verbatim>\<open>Hp1[0:2,:]/Hp1[2,:] - pts2\<close> subtracts a row of \<open>pts2\<close> from a row of the projection
  with numpy's broadcasting: the lengths are equal, or one of them is 1 and that row is
  repeated; any other pair of lengths raises ValueError.
\<close>

definition sub_rows :: "flt list \<Rightarrow> real list \<Rightarrow> error + flt list" where
  "sub_rows p q =
     (if length p = length q then Inr (map2 fsub p (map Some q))
      else if length q = 1 then Inr (map (\<lambda>a. fsub a (Some (hd q))) p)
      else if length p = 1 then Inr (map (\<lambda>b. fsub (hd p) (Some b)) q)
      else Inl ValueError)"

text \<open>
  \<^verbatim>\<open>
  Hp1 = H @ np.vstack((pts1, np.ones((1, np.size(pts1, axis=1)))))
  errors = np.sqrt(np.sum((Hp1[0:2,:]/Hp1[2,:] - pts2)**2, axis=0))
  ninliers = np.sum(np.where(errors<thresh**2, 1, 0))
  return ninliers, errors
  \<close>
  The product needs every row of \<open>H\<close> to have three entries (ValueError otherwise), and
  \<^verbatim>\<open>Hp1[2,:]\<close> needs three rows (IndexError otherwise).
\<close>

definition count_homography_inliers ::
  "matrix \<Rightarrow> points \<Rightarrow> points \<Rightarrow> real \<Rightarrow> error + nat \<times> flt list" where
  "count_homography_inliers H pts1 pts2 thresh =
     (if \<not> list_all (\<lambda>row. length row = 3) H then Inl ValueError
      else
        let Hp1 = matmul H [fst pts1, snd pts1, replicate (npoints pts1) 1] in
        if length Hp1 < 3 then Inl IndexError
        else
          let proj = map (\<lambda>row. map2 fdiv row (Hp1 ! 2)) (take 2 Hp1) in
          bindE (sub_rows (proj ! 0) (fst pts2)) (\<lambda>dx.
          bindE (sub_rows (proj ! 1) (snd pts2)) (\<lambda>dy.
            let errors = map fsqrt (map2 fadd (map fsquare dx) (map fsquare dy));
                ninliers = sum_list (map (\<lambda>e. if fless e (thresh\<^sup>2) then 1 else 0) errors)
            in Inr (ninliers, errors))))"

text \<open>
  The reprojection error of one correspondence, in the words of the specification:
  append a 1 to the point, multiply by \<open>H\<close>, divide the first two coordinates by the
  third, and take the Euclidean distance to the target point. When the third coordinate
  is zero the division yields non-finite coordinates and so does the distance.
\<close>

definition project :: "matrix \<Rightarrow> real \<times> real \<Rightarrow> real \<times> real \<times> real" where
  "project H p =
     (H ! 0 ! 0 * fst p + H ! 0 ! 1 * snd p + H ! 0 ! 2,
      H ! 1 ! 0 * fst p + H ! 1 ! 1 * snd p + H ! 1 ! 2,
      H ! 2 ! 0 * fst p + H ! 2 ! 1 * snd p + H ! 2 ! 2)"

definition reprojection_error :: "matrix \<Rightarrow> real \<times> real \<Rightarrow> real \<times> real \<Rightarrow> flt" where
  "reprojection_error H p q =
     (case project H p of (u, v, w) \<Rightarrow>
        if w = 0 then None
        else Some (sqrt ((u / w - fst q)\<^sup>2 + (v / w - snd q)\<^sup>2)))"

text \<open>
  The error vector in the words of the specification: entry \<open>i\<close> is the reprojection
  error of the correspondence \<open>pts1[i] \<leftrightarrow> pts2[i]\<close>.
\<close>

definition errors_of :: "matrix \<Rightarrow> points \<Rightarrow> points \<Rightarrow> flt list" where
  "errors_of H pts1 pts2 =
     map (\<lambda>i. reprojection_error H (point pts1 i) (point pts2 i)) [0..<npoints pts1]"

text \<open>
  The inlier count in the words of the specification: the number of points whose error
  is below the bound \<open>t\<close>.
\<close>

definition below_count :: "flt list \<Rightarrow> real \<Rightarrow> nat" where
  "below_count errors t = length (filter (\<lambda>e. fless e t) errors)"

section \<open>find_homography\<close>

text \<open>
  The two rows that the loop appends for the correspondence of source \<open>(x_a, y_a)\<close> and
  target \<open>(x_b, y_b)\<close>:
  \<^verbatim>\<open>
  A.append([x_a, y_a, 1, 0, 0, 0, -x_a * x_b, -y_a * x_b, -x_b])
  A.append([0, 0, 0, x_a, y_a, 1, -x_a * y_b, -y_a * y_b, -y_b])
  \<close>
\<close>

definition dlt_rows :: "real \<times> real \<Rightarrow> real \<times> real \<Rightarrow> matrix" where
  "dlt_rows a b =
     (case (a, b) of ((x_a, y_a), (x_b, y_b)) \<Rightarrow>
        [[x_a, y_a, 1, 0, 0, 0, - x_a * x_b, - y_a * x_b, - x_b],
         [0, 0, 0, x_a, y_a, 1, - x_a * y_b, - y_a * y_b, - y_b]])"

text \<open>
  The loop \<^verbatim>\<open>for i in range(n)\<close> with \<open>n\<close> the number of columns of \<open>pts1\<close>, run on
  the list of the indices still to visit and the rows appended so far. Reading
  \<^verbatim>\<open>pts2[:, i]\<close> raises IndexError when \<open>pts2\<close> has no column \<open>i\<close>.
\<close>

fun design_loop :: "points \<Rightarrow> points \<Rightarrow> nat list \<Rightarrow> matrix \<Rightarrow> error + matrix" where
  "design_loop pts1 pts2 [] A = Inr A"
| "design_loop pts1 pts2 (i # is) A =
     (if i < npoints pts2
      then design_loop pts1 pts2 is (A @ dlt_rows (point pts1 i) (point pts2 i))
      else Inl IndexError)"

text \<open>\<^verbatim>\<open>h.reshape((3, 3))\<close> of a vector of 9 entries, row-major.\<close>

definition reshape33 :: "real list \<Rightarrow> matrix" where
  "reshape33 h = [take 3 h, take 3 (drop 3 h), drop 6 h]"

text \<open>
  \<^verbatim>\<open>np.linalg.svd\<close> is a library routine and a parameter of the model. The function
  uses only the third component \<open>Vh\<close> of its result, so the parameter maps the matrix to
  that component, or to the exception the routine raises. \<^verbatim>\<open>Vh[-1, :]\<close> raises
  IndexError on an array without rows, and the reshape raises ValueError on a vector
  that has not 9 entries.
\<close>

type_synonym svd_fn = "matrix \<Rightarrow> error + matrix"

definition find_homography :: "svd_fn \<Rightarrow> points \<Rightarrow> points \<Rightarrow> error + matrix" where
  "find_homography svd pts1 pts2 =
     (let n = npoints pts1 in
      bindE (design_loop pts1 pts2 [0..<n] []) (\<lambda>A.
      bindE (svd A) (\<lambda>Vh.
        if Vh = [] then Inl IndexError
        else
          let h = last Vh in
          if length h \<noteq> 9 then Inl ValueError else Inr (reshape33 h))))"

text \<open>
  The design matrix in the words of the specification: for each correspondence \<open>i\<close> with
  source \<open>(xa, ya)\<close> and target \<open>(xb, yb)\<close>, in order, the two rows
  \<open>[xa, ya, 1, 0, 0, 0, -xa*xb, -ya*xb, -xb]\<close> and \<open>[0, 0, 0, xa, ya, 1, -xa*yb, -ya*yb, -yb]\<close>.
\<close>

definition spec_row1 :: "points \<Rightarrow> points \<Rightarrow> nat \<Rightarrow> real list" where
  "spec_row1 pts1 pts2 i =
     (let xa = fst pts1 ! i; ya = snd pts1 ! i; xb = fst pts2 ! i in
      [xa, ya, 1, 0, 0, 0, - xa * xb, - ya * xb, - xb])"

definition spec_row2 :: "points \<Rightarrow> points \<Rightarrow> nat \<Rightarrow> real list" where
  "spec_row2 pts1 pts2 i =
     (let xa = fst pts1 ! i; ya = snd pts1 ! i; yb = snd pts2 ! i in
      [0, 0, 0, xa, ya, 1, - xa * yb, - ya * yb, - yb])"

definition spec_design_matrix :: "points \<Rightarrow> points \<Rightarrow> matrix" where
  "spec_design_matrix pts1 pts2 =
     concat (map (\<lambda>i. [spec_row1 pts1 pts2 i, spec_row2 pts1 pts2 i]) [0..<npoints pts1])"

section \<open>homography_error\<close>

text \<open>
  \<^verbatim>\<open>
  H_diff = H1/H1[2,2] - H2/H2[2,2]
  return np.linalg.norm(np.diag((1/focal,1/focal,1)) @ H_diff @ np.diag((focal,focal,1)))
  \<close>
  \<^verbatim>\<open>H[2,2]\<close> raises IndexError on an array with fewer than three rows or columns. The
  array division by \<^verbatim>\<open>H[2,2]\<close> does not raise when that entry is zero. The subtraction
  raises ValueError when the shapes differ (no axis of length 1 is left to broadcast).
  \<^verbatim>\<open>1/focal\<close> divides Python scalars and raises ZeroDivisionError for a zero focal.
  The products with the \<open>3 \<times> 3\<close> diagonal matrices raise ValueError unless \<open>H_diff\<close> is
  \<open>3 \<times> 3\<close>. The norm of a 2-D array is the Frobenius norm.
\<close>

definition has22 :: "matrix \<Rightarrow> bool" where
  "has22 H = (2 < length H \<and> 2 < length (H ! 2))"

definition normalize22 :: "matrix \<Rightarrow> fmatrix" where
  "normalize22 H = map (map (\<lambda>x. fdiv x (H ! 2 ! 2))) H"

definition diag3 :: "real \<Rightarrow> real \<Rightarrow> real \<Rightarrow> fmatrix" where
  "diag3 a b c = [[Some a, Some 0, Some 0], [Some 0, Some b, Some 0], [Some 0, Some 0, Some c]]"

definition fnorm :: "fmatrix \<Rightarrow> flt" where
  "fnorm D = fsqrt (fsum (map fsquare (concat D)))"

definition homography_error :: "matrix \<Rightarrow> matrix \<Rightarrow> real \<Rightarrow> error + flt" where
  "homography_error H1 H2 focal =
     (if \<not> has22 H1 \<or> \<not> has22 H2 then Inl IndexError
      else if length H1 \<noteq> length H2 \<or> map length H1 \<noteq> map length H2 then Inl ValueError
      else
        let H_diff = map2 (map2 fsub) (normalize22 H1) (normalize22 H2) in
        if focal = 0 then Inl ZeroDivisionError
        else if \<not> is_shape 3 3 H_diff then Inl ValueError
        else Inr (fnorm (fmatmul (fmatmul (diag3 (1 / focal) (1 / focal) 1) H_diff)
                          (diag3 focal focal 1))))"

section \<open>find_homography_RANSAC\<close>

text \<open>
  \<^verbatim>\<open>np.random.choice(n, k, replace=False)\<close> reads and advances the process-wide
  generator. The generator state is threaded through the model, and the routine is a
  parameter: from the population size, the sample size and the state it gives the
  sample and the next state, or the exception it raises.
\<close>

type_synonym 'g choice_fn = "nat \<Rightarrow> nat \<Rightarrow> 'g \<Rightarrow> error + nat list \<times> 'g"

text \<open>\<^verbatim>\<open>pts[:, idx]\<close>: IndexError when an index is not a column of \<open>pts\<close>.\<close>

definition take_cols :: "points \<Rightarrow> nat list \<Rightarrow> error + points" where
  "take_cols pts idx =
     (if list_all (\<lambda>i. i < npoints pts) idx
      then Inr (map (\<lambda>i. fst pts ! i) idx, map (\<lambda>i. snd pts ! i) idx)
      else Inl IndexError)"

text \<open>
  The best-so-far triple \<open>(Hbest, ninliers, errors)\<close>; Python's \<open>None\<close> is \<open>None\<close>.
\<close>

type_synonym best = "matrix option \<times> nat \<times> flt list option"

text \<open>
  The first part of the loop body: sample, solve, score.
  \<^verbatim>\<open>
  idx = np.random.choice(pts1.shape[1], 4, replace=False)
  sampled_pts1 = pts1[:, idx]
  sampled_pts2 = pts2[:, idx]
  H = find_homography(sampled_pts1, sampled_pts2)
  local_ninliers, local_errors = count_homography_inliers(H, pts1, pts2, thresh)
  \<close>
\<close>

definition ransac_trial ::
  "svd_fn \<Rightarrow> 'g choice_fn \<Rightarrow> points \<Rightarrow> points \<Rightarrow> real \<Rightarrow> 'g
     \<Rightarrow> error + (matrix \<times> nat \<times> flt list) \<times> 'g" where
  "ransac_trial svd choice pts1 pts2 thresh g =
     bindE (choice (npoints pts1) 4 g) (\<lambda>(idx, g').
     bindE (take_cols pts1 idx) (\<lambda>sampled_pts1.
     bindE (take_cols pts2 idx) (\<lambda>sampled_pts2.
     bindE (find_homography svd sampled_pts1 sampled_pts2) (\<lambda>H.
     bindE (count_homography_inliers H pts1 pts2 thresh) (\<lambda>(local_ninliers, local_errors).
       Inr ((H, local_ninliers, local_errors), g'))))))"

text \<open>
  The second part of the loop body:
  \<^verbatim>\<open>
  if local_ninliers > ninliers:
      Hbest = H
      ninliers = local_ninliers
      errors = local_errors
  \<close>
\<close>

definition ransac_update :: "best \<Rightarrow> matrix \<times> nat \<times> flt list \<Rightarrow> best" where
  "ransac_update b t =
     (case (b, t) of ((Hbest, ninliers, errors), (H, local_ninliers, local_errors)) \<Rightarrow>
        if local_ninliers > ninliers then (Some H, local_ninliers, Some local_errors)
        else (Hbest, ninliers, errors))"

definition ransac_body ::
  "svd_fn \<Rightarrow> 'g choice_fn \<Rightarrow> points \<Rightarrow> points \<Rightarrow> real \<Rightarrow> best \<times> 'g \<Rightarrow> error + best \<times> 'g" where
  "ransac_body svd choice pts1 pts2 thresh s =
     bindE (ransac_trial svd choice pts1 pts2 thresh (snd s)) (\<lambda>(t, g').
       Inr (ransac_update (fst s) t, g'))"

text \<open>
  \<open>ransac_loop \<dots> k s\<close> runs \<open>k\<close> iterations of the loop from the state \<open>s\<close>; an exception
  in an iteration ends the run.
\<close>

fun ransac_loop ::
  "svd_fn \<Rightarrow> 'g choice_fn \<Rightarrow> points \<Rightarrow> points \<Rightarrow> real \<Rightarrow> nat \<Rightarrow> best \<times> 'g
     \<Rightarrow> error + best \<times> 'g" where
  "ransac_loop svd choice pts1 pts2 thresh 0 s = Inr s"
| "ransac_loop svd choice pts1 pts2 thresh (Suc k) s =
     bindE (ransac_body svd choice pts1 pts2 thresh s)
       (ransac_loop svd choice pts1 pts2 thresh k)"

text \<open>
  The whole function, from the generator state \<open>g\<close> at the call; \<^verbatim>\<open>range(niter)\<close> is
  empty for a negative \<open>niter\<close>. The result is the returned triple and the generator
  state the call leaves behind.
\<close>

definition find_homography_RANSAC ::
  "svd_fn \<Rightarrow> 'g choice_fn \<Rightarrow> points \<Rightarrow> points \<Rightarrow> int \<Rightarrow> real \<Rightarrow> 'g \<Rightarrow> error + best \<times> 'g" where
  "find_homography_RANSAC svd choice pts1 pts2 niter thresh g =
     ransac_loop svd choice pts1 pts2 thresh (nat niter) ((None, 0, None), g)"

text \<open>
  A best-so-far triple is consistent when it is the initial triple without a matrix and
  with count 0, or when its count and errors are what the scorer returns for its matrix
  on the full point arrays.
\<close>

definition consistent_best :: "points \<Rightarrow> points \<Rightarrow> real \<Rightarrow> best \<Rightarrow> bool" where
  "consistent_best pts1 pts2 thresh b =
     (case b of
        (Some H, n, Some e) \<Rightarrow> count_homography_inliers H pts1 pts2 thresh = Inr (n, e)
      | (None, n, None) \<Rightarrow> n = 0
      | _ \<Rightarrow> False)"

section \<open>The library routines as parameters\<close>

text \<open>
  What numpy documents of \<^verbatim>\<open>np.random.choice(n, k, replace=False)\<close>: a sample of \<open>k\<close>
  pairwise distinct elements of \<open>range(n)\<close>, and ValueError when \<open>k\<close> exceeds \<open>n\<close>.
\<close>

definition choice_ok :: "'g choice_fn \<Rightarrow> bool" where
  "choice_ok choice =
     (\<forall>n k g.
        if k \<le> n
        then (\<exists>idx g'. choice n k g = Inr (idx, g') \<and> length idx = k \<and> distinct idx
                \<and> list_all (\<lambda>i. i < n) idx)
        else choice n k g = Inl ValueError)"

text \<open>
  What the model assumes of \<^verbatim>\<open>np.linalg.svd\<close> where a theorem needs the routine to
  return: on a matrix with at least one row and 9 columns, \<open>Vh\<close> is \<open>9 \<times> 9\<close>.
\<close>

definition svd_ok :: "svd_fn \<Rightarrow> bool" where
  "svd_ok svd =
     (\<forall>A. A \<noteq> [] \<and> list_all (\<lambda>row. length row = 9) A
        \<longrightarrow> (\<exists>Vh. svd A = Inr Vh \<and> is_shape 9 9 Vh))"

text \<open>
  A generator that also records every sample it hands out, in order: the record makes
  the draws of a run observable.
\<close>

definition logged :: "'g choice_fn \<Rightarrow> ('g \<times> nat list list) choice_fn" where
  "logged choice n k s =
     bindE (choice n k (fst s)) (\<lambda>(idx, g'). Inr (idx, (g', snd s @ [idx])))"

subsection \<open>Instances for running the model\<close>

text \<open>
  A sampler whose state is a counter: the \<open>k\<close> consecutive indices from the counter on,
  modulo \<open>n\<close>.
\<close>

definition choice_rot :: "nat choice_fn" where
  "choice_rot n k g =
     (if k \<le> n then Inr (map (\<lambda>i. (g + i) mod n) [0..<k], Suc g) else Inl ValueError)"

text \<open>
  An SVD stand-in that returns the \<open>9 \<times> 9\<close> identity as \<open>Vh\<close>. Its last row is the
  ninth unit vector, which is a right-singular vector for the singular value 0 of every
  design matrix whose target points are all at the origin (the last column of such a
  matrix is zero); the examples below use such targets.
\<close>

definition unit9 :: matrix where
  "unit9 = map (\<lambda>i. map (\<lambda>j. if i = j then 1 else 0) [0..<9]) [0..<9]"

definition svd_unit :: svd_fn where
  "svd_unit A = Inr unit9"

definition H_unit :: matrix where
  "H_unit = [[0, 0, 0], [0, 0, 0], [0, 0, 1]]"

definition H_unit0 :: matrix where
  "H_unit0 = [[1, 0, 0], [0, 1, 0], [0, 0, 0]]"

definition eye3 :: matrix where
  "eye3 = [[1, 0, 0], [0, 1, 0], [0, 0, 1]]"

definition square_pts :: points where
  "square_pts = ([1, 1, -1, -1], [1, -1, 1, -1])"

definition origin_pts :: points where
  "origin_pts = ([0, 0, 0, 0], [0, 0, 0, 0])"

section \<open>Properties of count_homography_inliers\<close>

lemma shape33E:
  assumes "is_shape 3 3 H"
  obtains a b c d e f g h i where "H = [[a, b, c], [d, e, f], [g, h, i]]"
proof -
  from assms have l: "length H = 3" and r: "\<forall>row\<in>set H. length row = 3"
    by (simp_all add: is_shape_def list_all_iff)
  from l obtain r0 r1 r2 where H: "H = [r0, r1, r2]"
    by (auto simp: length_Suc_conv numeral_3_eq_3)
  with r have "length r0 = 3" "length r1 = 3" "length r2 = 3" by simp_all
  then obtain a b c d e f g h i where "r0 = [a, b, c]" "r1 = [d, e, f]" "r2 = [g, h, i]"
    by (auto simp: length_Suc_conv numeral_3_eq_3)
  with H show ?thesis using that by blast
qed

lemma transpose3:
  assumes "length ys = length xs" "length zs = length xs"
  shows "transpose [xs, ys, zs] = map (\<lambda>i. [xs ! i, ys ! i, zs ! i]) [0..<length xs]"
proof -
  have "transpose [xs, ys, zs] =
      map (\<lambda>i. map (\<lambda>j. [xs, ys, zs] ! j ! i) [0..<length [xs, ys, zs]]) [0..<length xs]"
    by (rule transpose_rectangle) (use assms in \<open>auto simp: nth_Cons' \<close>)
  also have "[0..<length [xs, ys, zs]] = [0, 1, 2]"
    by (simp add: upt_rec)
  finally show ?thesis by simp
qed

lemma matmul3:
  assumes "length ys = length xs" "length zs = length xs"
  shows "matmul [[a, b, c], [d, e, f], [g, h, i]] [xs, ys, zs] =
    [map (\<lambda>k. a * xs ! k + b * ys ! k + c * zs ! k) [0..<length xs],
     map (\<lambda>k. d * xs ! k + e * ys ! k + f * zs ! k) [0..<length xs],
     map (\<lambda>k. g * xs ! k + h * ys ! k + i * zs ! k) [0..<length xs]]"
  by (simp add: matmul_def transpose3 [OF assms] o_def)

lemma map2_upt:
  "map2 f (map g [0..<n]) (map h [0..<n]) = map (\<lambda>k. f (g k) (h k)) [0..<n]"
  by (rule nth_equalityI) simp_all

lemma sub_rows_upt:
  "length q = n \<Longrightarrow>
    sub_rows (map p [0..<n]) q = Inr (map (\<lambda>k. fsub (p k) (Some (q ! k))) [0..<n])"
  by (auto simp: sub_rows_def intro!: nth_equalityI)

lemma matmul_points:
  assumes "length ys = length xs"
  shows "matmul [[a, b, c], [d, e, f], [g, h, i]] [xs, ys, replicate (length xs) 1] =
    [map (\<lambda>k. a * xs ! k + b * ys ! k + c) [0..<length xs],
     map (\<lambda>k. d * xs ! k + e * ys ! k + f) [0..<length xs],
     map (\<lambda>k. g * xs ! k + h * ys ! k + i) [0..<length xs]]"
  using assms by (simp add: matmul3)

lemma reprojection_error_rows:
  "fsqrt (fadd (fsquare (fsub (fdiv (a * x + b * y + c) (g * x + h * y + i)) (Some u)))
               (fsquare (fsub (fdiv (d * x + e * y + f) (g * x + h * y + i)) (Some v)))) =
   reprojection_error [[a, b, c], [d, e, f], [g, h, i]] (x, y) (u, v)"
  by (simp add: reprojection_error_def project_def fsqrt_def fadd_def fsquare_def fsub_def
      fdiv_def not_sum_power2_lt_zero)

text \<open>
  The vectorised computation returns, for a \<open>3 \<times> 3\<close> matrix and point arrays of equal
  length, the error vector of the specification and the number of its entries below the
  square of the threshold.
\<close>

lemma count_errors:
  assumes H: "is_shape 3 3 H"
    and wf: "wf_points pts1" "wf_points pts2"
    and len: "npoints pts2 = npoints pts1"
  shows "count_homography_inliers H pts1 pts2 thresh =
    Inr (sum_list (map (\<lambda>e. if fless e (thresh\<^sup>2) then 1 else 0) (errors_of H pts1 pts2)),
         errors_of H pts1 pts2)"
proof -
  from H obtain a b c d e f g h i where Heq: "H = [[a, b, c], [d, e, f], [g, h, i]]"
    by (rule shape33E)
  obtain xs ys where p1: "pts1 = (xs, ys)" by (cases pts1)
  obtain us vs where p2: "pts2 = (us, vs)" by (cases pts2)
  from wf len p1 p2 have l: "length ys = length xs" "length us = length xs" "length vs = length xs"
    by (simp_all add: wf_points_def npoints_def)
  define n where "n = length xs"
  define r0 where "r0 = (\<lambda>k. a * xs ! k + b * ys ! k + c)"
  define r1 where "r1 = (\<lambda>k. d * xs ! k + e * ys ! k + f)"
  define r2 where "r2 = (\<lambda>k. g * xs ! k + h * ys ! k + i)"
  have mm: "matmul H [fst pts1, snd pts1, replicate (npoints pts1) 1] =
    [map r0 [0..<n], map r1 [0..<n], map r2 [0..<n]]"
    unfolding Heq p1 npoints_def fst_conv snd_conv n_def r0_def r1_def r2_def
    by (rule matmul_points) (rule l)
  have dx: "sub_rows (map2 fdiv (map r0 [0..<n]) (map r2 [0..<n])) us =
      Inr (map (\<lambda>k. fsub (fdiv (r0 k) (r2 k)) (Some (us ! k))) [0..<n])"
    unfolding map2_upt by (rule sub_rows_upt) (simp add: l n_def)
  have dy: "sub_rows (map2 fdiv (map r1 [0..<n]) (map r2 [0..<n])) vs =
      Inr (map (\<lambda>k. fsub (fdiv (r1 k) (r2 k)) (Some (vs ! k))) [0..<n])"
    unfolding map2_upt by (rule sub_rows_upt) (simp add: l n_def)
  have errs: "map fsqrt (map2 fadd
        (map fsquare (map (\<lambda>k. fsub (fdiv (r0 k) (r2 k)) (Some (us ! k))) [0..<n]))
        (map fsquare (map (\<lambda>k. fsub (fdiv (r1 k) (r2 k)) (Some (vs ! k))) [0..<n])))
     = errors_of H pts1 pts2"
    unfolding map_map map2_upt
    by (simp add: errors_of_def point_def p1 p2 Heq npoints_def n_def o_def
        r0_def r1_def r2_def reprojection_error_rows)
  have hs: "list_all (\<lambda>row. length row = 3) H" by (simp add: Heq)
  show ?thesis
    unfolding count_homography_inliers_def mm Let_def
    by (simp add: hs bindE_def p2 dx dy errs del: map_map)
qed

lemma below_count_sum:
  "sum_list (map (\<lambda>e. if fless e t then 1 else 0) errors) = below_count errors t"
  by (induction errors) (simp_all add: below_count_def)

lemma count_inliers_threshold_squared:
  assumes "count_homography_inliers H pts1 pts2 thresh = Inr (n, errors)"
  shows "n = below_count errors (thresh\<^sup>2)"
  using assms
  by (auto simp: count_homography_inliers_def Let_def bindE_def below_count_sum
      split: if_splits sum.splits)

lemma sqrt_9: "sqrt 9 = 3"
  by (rule real_sqrt_unique) simp_all

lemma sqrt_25: "sqrt 25 = 5"
  by (rule real_sqrt_unique) simp_all

text \<open>
  C1. The claim: the returned inlier count is the number of indices whose error is
  strictly below the raw threshold. The code compares with the square of the threshold
  (\<open>count_inliers_threshold_squared\<close>). With the identity homography, the single
  correspondence \<open>(0, 0) \<leftrightarrow> (3, 0)\<close> and threshold 2, the error is 3: no index has an
  error below 2, and the function returns the count 1, since \<open>3 < 2\<^sup>2\<close>.
\<close>

theorem count_inliers_raw_threshold_fails:
  "count_homography_inliers eye3 ([0], [0]) ([3], [0]) 2 = Inr (1, [Some 3])
   \<and> below_count [Some 3] 2 = 0"
proof -
  have "count_homography_inliers eye3 ([0], [0]) ([3], [0]) 2 =
      Inr (below_count (errors_of eye3 ([0], [0]) ([3], [0])) (2\<^sup>2),
           errors_of eye3 ([0], [0]) ([3], [0]))"
    unfolding below_count_sum [symmetric]
    by (rule count_errors) (simp_all add: eye3_def is_shape_def wf_points_def npoints_def)
  moreover have "errors_of eye3 ([0], [0]) ([3], [0]) = [Some 3]"
    by (simp add: errors_of_def npoints_def point_def reprojection_error_def project_def
        eye3_def sqrt_9)
  ultimately show ?thesis
    by (simp add: below_count_def fless_def)
qed

text \<open>
  C6. For a \<open>3 \<times> 3\<close> matrix \<open>H\<close> and point arrays \<open>pts1\<close>, \<open>pts2\<close> of the same length
  \<open>N\<close>, the function returns for every threshold; the error vector has length \<open>N\<close>, is
  the same for any two thresholds, and its entry \<open>i\<close> is the Euclidean distance between
  the dehomogenized projection of \<open>pts1[i]\<close> through \<open>H\<close> and \<open>pts2[i]\<close> (non-finite when
  the third homogeneous coordinate is zero).
\<close>

theorem count_homography_inliers_errors:
  assumes "is_shape 3 3 H" and "wf_points pts1" and "wf_points pts2"
    and "npoints pts1 = N" and "npoints pts2 = N"
  shows "\<exists>n n' errors.
      count_homography_inliers H pts1 pts2 thresh = Inr (n, errors)
      \<and> count_homography_inliers H pts1 pts2 thresh' = Inr (n', errors)
      \<and> length errors = N
      \<and> (\<forall>i<N. errors ! i = reprojection_error H (point pts1 i) (point pts2 i))"
proof -
  have len: "npoints pts2 = npoints pts1" using assms by simp
  have "count_homography_inliers H pts1 pts2 t =
      Inr (sum_list (map (\<lambda>e. if fless e (t\<^sup>2) then 1 else 0) (errors_of H pts1 pts2)),
           errors_of H pts1 pts2)" for t
    using assms(1-3) len by (rule count_errors)
  moreover have "length (errors_of H pts1 pts2) = N"
    using assms(4) by (simp add: errors_of_def)
  moreover have "\<forall>i<N. errors_of H pts1 pts2 ! i =
      reprojection_error H (point pts1 i) (point pts2 i)"
    using assms(4) by (simp add: errors_of_def)
  ultimately show ?thesis by blast
qed

theorem count_homography_inliers_errors_witness:
  "\<exists>n n' errors.
      count_homography_inliers eye3 ([0, 3], [0, 4]) ([3, 3], [4, 0]) 1 = Inr (n, errors)
      \<and> count_homography_inliers eye3 ([0, 3], [0, 4]) ([3, 3], [4, 0]) 7 = Inr (n', errors)
      \<and> length errors = 2 \<and> errors ! 0 = Some 5 \<and> errors ! 1 = Some 4"
proof -
  have h: "is_shape 3 3 eye3" "wf_points ([0, 3], [0, 4])" "wf_points ([3, 3], [4, 0])"
    "npoints ([0, 3], [0, 4]) = 2" "npoints ([3, 3], [4, 0]) = 2"
    by (simp_all add: eye3_def is_shape_def wf_points_def npoints_def)
  have e0: "reprojection_error eye3 (point ([0, 3], [0, 4]) 0) (point ([3, 3], [4, 0]) 0) = Some 5"
    by (simp add: reprojection_error_def project_def point_def eye3_def sqrt_25)
  have e1: "reprojection_error eye3 (point ([0, 3], [0, 4]) 1) (point ([3, 3], [4, 0]) 1) = Some 4"
    by (simp add: reprojection_error_def project_def point_def eye3_def)
  from count_homography_inliers_errors [OF h, of 1 7] e0 e1 show ?thesis
    by (metis One_nat_def zero_less_numeral one_less_numeral_iff semiring_norm(76))
qed

section \<open>Properties of find_homography\<close>

lemma dlt_rows_spec:
  "dlt_rows (point pts1 i) (point pts2 i) = [spec_row1 pts1 pts2 i, spec_row2 pts1 pts2 i]"
  by (simp add: dlt_rows_def point_def spec_row1_def spec_row2_def Let_def)

lemma design_loop_ok:
  "list_all (\<lambda>i. i < npoints pts2) js \<Longrightarrow>
    design_loop pts1 pts2 js A =
      Inr (A @ concat (map (\<lambda>i. [spec_row1 pts1 pts2 i, spec_row2 pts1 pts2 i]) js))"
  by (induction js arbitrary: A) (simp_all add: dlt_rows_spec)

lemma design_loop_fail:
  "\<not> list_all (\<lambda>i. i < npoints pts2) js \<Longrightarrow> design_loop pts1 pts2 js A = Inl IndexError"
  by (induction js arbitrary: A) simp_all

lemma design_loop_range:
  "design_loop pts1 pts2 [0..<npoints pts1] [] =
     (if npoints pts1 \<le> npoints pts2 then Inr (spec_design_matrix pts1 pts2) else Inl IndexError)"
proof (cases "npoints pts1 \<le> npoints pts2")
  case True
  then have "list_all (\<lambda>i. i < npoints pts2) [0..<npoints pts1]"
    by (simp add: list_all_iff)
  then show ?thesis using True
    by (simp add: design_loop_ok spec_design_matrix_def)
next
  case False
  then have "\<not> list_all (\<lambda>i. i < npoints pts2) [0..<npoints pts1]"
    by (auto simp: list_all_iff)
  then show ?thesis using False
    by (simp add: design_loop_fail)
qed

lemma concat_pairs_length:
  "length (concat (map (\<lambda>i. [f i, g i]) js)) = 2 * length js"
  by (induction js) simp_all

lemma concat_pairs_nth:
  "k < length js \<Longrightarrow>
    concat (map (\<lambda>i. [f i, g i]) js) ! (2 * k) = f (js ! k)
    \<and> concat (map (\<lambda>i. [f i, g i]) js) ! (2 * k + 1) = g (js ! k)"
proof (induction js arbitrary: k)
  case Nil
  then show ?case by simp
next
  case (Cons j js)
  then show ?case by (cases k) simp_all
qed

lemma spec_design_matrix_shape:
  "is_shape (2 * npoints pts1) 9 (spec_design_matrix pts1 pts2)"
  by (simp add: is_shape_def spec_design_matrix_def concat_pairs_length list_all_iff
      spec_row1_def spec_row2_def Let_def)

lemma spec_design_matrix_rows:
  assumes "i < npoints pts1"
  shows "spec_design_matrix pts1 pts2 ! (2 * i) = spec_row1 pts1 pts2 i"
    and "spec_design_matrix pts1 pts2 ! (2 * i + 1) = spec_row2 pts1 pts2 i"
  using concat_pairs_nth [of i "[0..<npoints pts1]" "spec_row1 pts1 pts2" "spec_row2 pts1 pts2"] assms
  by (simp_all add: spec_design_matrix_def)

lemma reshape33_rows:
  "length h = 9 \<Longrightarrow>
    reshape33 h = [[h ! 0, h ! 1, h ! 2], [h ! 3, h ! 4, h ! 5], [h ! 6, h ! 7, h ! 8]]"
  by (auto simp: reshape33_def length_Suc_conv eval_nat_numeral)

lemma reshape33_shape: "length h = 9 \<Longrightarrow> is_shape 3 3 (reshape33 h)"
  by (simp add: reshape33_rows is_shape_def)

lemma find_homography_result:
  "find_homography svd pts1 pts2 =
     (if npoints pts1 \<le> npoints pts2
      then bindE (svd (spec_design_matrix pts1 pts2)) (\<lambda>Vh.
             if Vh = [] then Inl IndexError
             else if length (last Vh) \<noteq> 9 then Inl ValueError
             else Inr (reshape33 (last Vh)))
      else Inl IndexError)"
  by (simp add: find_homography_def design_loop_range bindE_def Let_def split: sum.splits)

lemma svd_ok_result:
  assumes "svd_ok svd" and "0 < npoints pts1"
  obtains Vh where "svd (spec_design_matrix pts1 pts2) = Inr Vh" and "is_shape 9 9 Vh"
proof -
  have s: "is_shape (2 * npoints pts1) 9 (spec_design_matrix pts1 pts2)"
    by (rule spec_design_matrix_shape)
  with assms(2) have "spec_design_matrix pts1 pts2 \<noteq> []"
    and "list_all (\<lambda>row. length row = 9) (spec_design_matrix pts1 pts2)"
    by (auto simp: is_shape_def)
  with assms(1) show ?thesis using that unfolding svd_ok_def by blast
qed

lemma last_shape9:
  assumes "is_shape 9 9 Vh"
  shows "Vh \<noteq> []" and "last Vh = Vh ! 8" and "length (last Vh) = 9"
proof -
  from assms have l: "length Vh = 9" and r: "\<forall>row\<in>set Vh. length row = 9"
    by (simp_all add: is_shape_def list_all_iff)
  from l show ne: "Vh \<noteq> []" by auto
  from l ne show "last Vh = Vh ! 8" by (simp add: last_conv_nth)
  from ne r show "length (last Vh) = 9" by simp
qed

text \<open>
  C2. For \<open>2 \<times> N\<close> arrays with \<open>N \<ge> 4\<close>, the loop builds a matrix \<open>A\<close> of \<open>2N\<close> rows
  and 9 columns whose rows \<open>2i\<close> and \<open>2i + 1\<close> are the two rows of the specification for
  correspondence \<open>i\<close>; the SVD routine is applied to \<open>A\<close>, and the result is the last
  row of its \<open>Vh\<close>, entries 0 to 2 in the first row, 3 to 5 in the second and 6 to 8 in
  the third. The order of the singular values is the library routine's contract.
\<close>

theorem find_homography_dlt:
  assumes "svd_ok svd" and "wf_points pts1" and "wf_points pts2"
    and "npoints pts1 = N" and "npoints pts2 = N" and "4 \<le> N"
  shows "\<exists>A Vh.
      design_loop pts1 pts2 [0..<N] [] = Inr A
      \<and> is_shape (2 * N) 9 A
      \<and> (\<forall>i<N. A ! (2 * i) =
                  [fst pts1 ! i, snd pts1 ! i, 1, 0, 0, 0,
                   - (fst pts1 ! i) * (fst pts2 ! i), - (snd pts1 ! i) * (fst pts2 ! i),
                   - (fst pts2 ! i)]
               \<and> A ! (2 * i + 1) =
                  [0, 0, 0, fst pts1 ! i, snd pts1 ! i, 1,
                   - (fst pts1 ! i) * (snd pts2 ! i), - (snd pts1 ! i) * (snd pts2 ! i),
                   - (snd pts2 ! i)])
      \<and> svd A = Inr Vh \<and> is_shape 9 9 Vh
      \<and> find_homography svd pts1 pts2 =
          Inr [[last Vh ! 0, last Vh ! 1, last Vh ! 2],
               [last Vh ! 3, last Vh ! 4, last Vh ! 5],
               [last Vh ! 6, last Vh ! 7, last Vh ! 8]]"
proof -
  let ?A = "spec_design_matrix pts1 pts2"
  from assms(4,6) have pos: "0 < npoints pts1" by simp
  from assms(1) pos obtain Vh where Vh: "svd ?A = Inr Vh" "is_shape 9 9 Vh"
    by (rule svd_ok_result)
  have "design_loop pts1 pts2 [0..<N] [] = Inr ?A"
    using assms(4,5) design_loop_range [of pts1 pts2] by simp
  moreover have "is_shape (2 * N) 9 ?A"
    using spec_design_matrix_shape [of pts1 pts2] assms(4) by simp
  moreover have "\<forall>i<N. ?A ! (2 * i) =
                  [fst pts1 ! i, snd pts1 ! i, 1, 0, 0, 0,
                   - (fst pts1 ! i) * (fst pts2 ! i), - (snd pts1 ! i) * (fst pts2 ! i),
                   - (fst pts2 ! i)]
               \<and> ?A ! (2 * i + 1) =
                  [0, 0, 0, fst pts1 ! i, snd pts1 ! i, 1,
                   - (fst pts1 ! i) * (snd pts2 ! i), - (snd pts1 ! i) * (snd pts2 ! i),
                   - (snd pts2 ! i)]"
    using assms(4) spec_design_matrix_rows [of _ pts1 pts2]
    by (simp add: spec_row1_def spec_row2_def Let_def)
  moreover have "find_homography svd pts1 pts2 =
          Inr [[last Vh ! 0, last Vh ! 1, last Vh ! 2],
               [last Vh ! 3, last Vh ! 4, last Vh ! 5],
               [last Vh ! 6, last Vh ! 7, last Vh ! 8]]"
    using assms(4,5) Vh last_shape9 [OF Vh(2)]
    by (simp add: find_homography_result bindE_def reshape33_rows)
  ultimately show ?thesis using Vh by blast
qed


lemma unit9_shape: "is_shape 9 9 unit9"
  by (simp add: is_shape_def unit9_def list_all_iff)

lemma upt_9: "[0..<9] = [0, 1, 2, 3, 4, 5, 6, 7, 8]"
  by (simp add: upt_rec)

lemma last_unit9: "last unit9 = [0, 0, 0, 0, 0, 0, 0, 0, 1]"
  by (simp add: unit9_def upt_9)

lemma unit9_ne: "unit9 \<noteq> []"
  by (simp add: unit9_def)

lemma svd_unit_ok: "svd_ok svd_unit"
  by (simp add: svd_ok_def svd_unit_def unit9_shape)

lemma reshape_unit: "reshape33 (last unit9) = H_unit"
  by (simp add: last_unit9 reshape33_def H_unit_def)

text \<open>
  The stand-in is sound for the examples: when the target of correspondence \<open>i\<close> is the
  origin, both rows of the design matrix for \<open>i\<close> are orthogonal to the last row of the
  identity, so that row is a right-singular vector for the singular value 0.
\<close>

lemma origin_target_rows:
  assumes "point pts2 i = (0, 0)"
  shows "sum_list (map2 (*) (spec_row1 pts1 pts2 i) (last unit9)) = 0"
    and "sum_list (map2 (*) (spec_row2 pts1 pts2 i) (last unit9)) = 0"
  using assms by (simp_all add: point_def spec_row1_def spec_row2_def Let_def last_unit9)

theorem find_homography_dlt_witness:
  "\<exists>A Vh.
      design_loop square_pts origin_pts [0..<4] [] = Inr A
      \<and> is_shape 8 9 A
      \<and> A ! 2 = [1, -1, 1, 0, 0, 0, 0, 0, 0]
      \<and> A ! 3 = [0, 0, 0, 1, -1, 1, 0, 0, 0]
      \<and> svd_unit A = Inr Vh \<and> is_shape 9 9 Vh
      \<and> find_homography svd_unit square_pts origin_pts = Inr H_unit"
proof -
  have h: "wf_points square_pts" "wf_points origin_pts" "npoints square_pts = 4"
    "npoints origin_pts = 4" "(4::nat) \<le> 4"
    by (simp_all add: wf_points_def npoints_def square_pts_def origin_pts_def)
  from find_homography_dlt [OF svd_unit_ok h]
  obtain A Vh where A: "design_loop square_pts origin_pts [0..<4] [] = Inr A"
    "is_shape (2 * 4) 9 A"
    and rows: "\<forall>i<4. A ! (2 * i) =
                  [fst square_pts ! i, snd square_pts ! i, 1, 0, 0, 0,
                   - (fst square_pts ! i) * (fst origin_pts ! i),
                   - (snd square_pts ! i) * (fst origin_pts ! i),
                   - (fst origin_pts ! i)]
               \<and> A ! (2 * i + 1) =
                  [0, 0, 0, fst square_pts ! i, snd square_pts ! i, 1,
                   - (fst square_pts ! i) * (snd origin_pts ! i),
                   - (snd square_pts ! i) * (snd origin_pts ! i),
                   - (snd origin_pts ! i)]"
    and Vh: "svd_unit A = Inr Vh" "is_shape 9 9 Vh"
    and H: "find_homography svd_unit square_pts origin_pts =
          Inr [[last Vh ! 0, last Vh ! 1, last Vh ! 2],
               [last Vh ! 3, last Vh ! 4, last Vh ! 5],
               [last Vh ! 6, last Vh ! 7, last Vh ! 8]]"
    by blast
  have "A ! (2 * 1) =
                  [fst square_pts ! 1, snd square_pts ! 1, 1, 0, 0, 0,
                   - (fst square_pts ! 1) * (fst origin_pts ! 1),
                   - (snd square_pts ! 1) * (fst origin_pts ! 1),
                   - (fst origin_pts ! 1)]
               \<and> A ! (2 * 1 + 1) =
                  [0, 0, 0, fst square_pts ! 1, snd square_pts ! 1, 1,
                   - (fst square_pts ! 1) * (snd origin_pts ! 1),
                   - (snd square_pts ! 1) * (snd origin_pts ! 1),
                   - (snd origin_pts ! 1)]"
    using rows [THEN spec, of 1] by simp
  then have r: "A ! 2 = [1, -1, 1, 0, 0, 0, 0, 0, 0]" "A ! 3 = [0, 0, 0, 1, -1, 1, 0, 0, 0]"
    by (simp_all add: square_pts_def origin_pts_def)
  from Vh(1) have "Vh = unit9" by (simp add: svd_unit_def)
  with H have "find_homography svd_unit square_pts origin_pts = Inr H_unit"
    by (simp add: last_unit9 H_unit_def)
  with A r Vh show ?thesis by auto
qed

text \<open>
  C7, as amended. The function checks nothing about its input. With \<open>N\<close> the number of
  columns of \<open>pts1\<close>: when \<open>pts2\<close> has fewer than \<open>N\<close> columns, reading its column fails
  with IndexError; when \<open>pts2\<close> has at least \<open>N \<ge> 1\<close> columns (also for \<open>N < 4\<close>, and
  also when \<open>pts2\<close> is longer than \<open>pts1\<close>), the function returns the reshaped last row
  of \<open>Vh\<close> for the design matrix of the first \<open>N\<close> correspondences.
\<close>

theorem find_homography_no_validation:
  assumes "svd_ok svd"
  shows "(npoints pts2 < npoints pts1 \<longrightarrow> find_homography svd pts1 pts2 = Inl IndexError)
    \<and> (0 < npoints pts1 \<and> npoints pts1 \<le> npoints pts2 \<longrightarrow>
        (\<exists>Vh. svd (spec_design_matrix pts1 pts2) = Inr Vh \<and> is_shape 9 9 Vh
           \<and> find_homography svd pts1 pts2 = Inr (reshape33 (last Vh))))"
proof (intro conjI impI)
  assume "npoints pts2 < npoints pts1"
  then show "find_homography svd pts1 pts2 = Inl IndexError"
    by (simp add: find_homography_result)
next
  assume a: "0 < npoints pts1 \<and> npoints pts1 \<le> npoints pts2"
  with assms obtain Vh where Vh: "svd (spec_design_matrix pts1 pts2) = Inr Vh" "is_shape 9 9 Vh"
    using svd_ok_result by blast
  with a last_shape9 [OF Vh(2)]
  have "find_homography svd pts1 pts2 = Inr (reshape33 (last Vh))"
    by (simp add: find_homography_result bindE_def)
  with Vh show "\<exists>Vh. svd (spec_design_matrix pts1 pts2) = Inr Vh \<and> is_shape 9 9 Vh
           \<and> find_homography svd pts1 pts2 = Inr (reshape33 (last Vh))"
    by blast
qed

theorem find_homography_no_validation_witness:
  "find_homography svd_unit ([0, 1], [0, 1]) ([0], [0]) = Inl IndexError
   \<and> find_homography svd_unit ([2, 3], [5, 7]) ([0, 0, 1], [0, 0, 1]) = Inr H_unit"
proof -
  have "npoints ([0], [0]) < npoints ([0, 1], [0, 1])"
    and "0 < npoints ([2, 3], [5, 7]) \<and> npoints ([2, 3], [5, 7]) \<le> npoints ([0, 0, 1], [0, 0, 1])"
    by (simp_all add: npoints_def)
  with find_homography_no_validation [OF svd_unit_ok, of "([0], [0])" "([0, 1], [0, 1])"]
    find_homography_no_validation [OF svd_unit_ok, of "([0, 0, 1], [0, 0, 1])" "([2, 3], [5, 7])"]
  show ?thesis
    by (auto simp: svd_unit_def reshape_unit)
qed

text \<open>
  C7, the claim as stated fails: for one source point and two target points (sequences
  of different lengths, fewer than 4 points) the function returns a matrix.
\<close>

theorem find_homography_accepts_invalid_input:
  "npoints ([2], [5]) \<noteq> npoints ([0, 1], [0, 1]) \<and> npoints ([2], [5]) < 4
   \<and> find_homography svd_unit ([2], [5]) ([0, 1], [0, 1]) = Inr H_unit"
proof -
  have "length (last unit9) = 9" by (simp add: last_unit9)
  then show ?thesis
    by (simp add: find_homography_result npoints_def svd_unit_def bindE_def reshape_unit
        unit9_ne)
qed

section \<open>Properties of homography_error\<close>

lemma fadd_None: "fadd None b = None" "fadd a None = None"
  by (simp_all add: fadd_def split: option.splits)

lemma homography_error_33:
  assumes "focal \<noteq> 0"
  shows "homography_error [[a, b, c], [d, e, f], [g, h, i]] [[a', b', c'], [d', e', f'], [g', h', i']] focal =
    Inr (fnorm (fmatmul (fmatmul (diag3 (1 / focal) (1 / focal) 1)
      [[fsub (fdiv a i) (fdiv a' i'), fsub (fdiv b i) (fdiv b' i'), fsub (fdiv c i) (fdiv c' i')],
       [fsub (fdiv d i) (fdiv d' i'), fsub (fdiv e i) (fdiv e' i'), fsub (fdiv f i) (fdiv f' i')],
       [fsub (fdiv g i) (fdiv g' i'), fsub (fdiv h i) (fdiv h' i'), fsub (fdiv i i) (fdiv i' i')]])
      (diag3 focal focal 1)))"
  using assms by (simp add: homography_error_def has22_def normalize22_def is_shape_def)


lemma fnone_simps:
  "fsub None b = None" "fsub a None = None" "fmul None b = None" "fmul a None = None"
  "fsquare None = None" "fsqrt None = None" "fdiv x 0 = None"
  by (simp_all add: fsub_def fmul_def fsquare_def fsqrt_def fdiv_def split: option.splits)

lemma fnorm_all_None:
  assumes "focal \<noteq> 0"
  shows "fnorm (fmatmul (fmatmul (diag3 (1 / focal) (1 / focal) 1)
      [[None, None, None], [None, None, None], [None, None, None]]) (diag3 focal focal 1)) = None"
  by (simp add: fnorm_def fmatmul_def diag3_def fsum_def fnone_simps fadd_None)

text \<open>
  C4, as amended. The function has no guard on the normalization anchor: for \<open>3 \<times> 3\<close>
  matrices with \<open>H1[2,2] = 0\<close> or \<open>H2[2,2] = 0\<close> and a nonzero focal length it raises
  nothing; the array division by zero makes every entry of the difference non-finite,
  and the returned norm is a non-finite value.
\<close>

theorem homography_error_zero_anchor:
  assumes "is_shape 3 3 H1" and "is_shape 3 3 H2" and "focal \<noteq> 0"
    and "H1 ! 2 ! 2 = 0 \<or> H2 ! 2 ! 2 = 0"
  shows "homography_error H1 H2 focal = Inr None"
proof -
  from assms(1) obtain a b c d e f g h i where H1: "H1 = [[a, b, c], [d, e, f], [g, h, i]]"
    by (rule shape33E)
  from assms(2) obtain a' b' c' d' e' f' g' h' i'
    where H2: "H2 = [[a', b', c'], [d', e', f'], [g', h', i']]"
    by (rule shape33E)
  from assms(4) have "i = 0 \<or> i' = 0" by (simp add: H1 H2)
  then show ?thesis
    unfolding H1 H2 homography_error_33 [OF assms(3)]
    by (auto simp: fnone_simps fnorm_all_None [OF assms(3)])
qed

theorem homography_error_zero_anchor_witness:
  "homography_error [[1, 0, 0], [0, 1, 0], [0, 0, 1]] [[2, 0, 5], [0, 2, 7], [0, 0, 0]] 1000
     = Inr None"
proof -
  have "is_shape 3 3 [[1, 0, 0], [0, 1, 0], [0, 0, 1::real]]"
    and "is_shape 3 3 [[2, 0, 5], [0, 2, 7], [0, 0, 0::real]]"
    and "(1000::real) \<noteq> 0"
    and "[[1, 0, 0], [0, 1, 0], [0, 0, 1::real]] ! 2 ! 2 = 0
       \<or> [[2, 0, 5], [0, 2, 7], [0, 0, 0::real]] ! 2 ! 2 = 0"
    by (simp_all add: is_shape_def)
  then show ?thesis by (rule homography_error_zero_anchor)
qed

text \<open>
  C4, the claim as stated fails: with \<open>H1[2,2] = 0\<close> the call returns a (non-finite)
  value, not an error.
\<close>

theorem homography_error_no_degenerate_guard:
  "H_unit0 ! 2 ! 2 = 0 \<and> homography_error H_unit0 eye3 1000 = Inr None"
  by (simp add: H_unit0_def eye3_def homography_error_33 fnone_simps fnorm_def fmatmul_def
      diag3_def fsum_def fadd_None)

text \<open>
  The invariance of \<open>homography_error\<close> under scaling one argument is not stated here:
  it rests on the cancellation \<open>(c * x) / (c * y) = x / y\<close>, a law of the reals that
  rounded floating-point arithmetic does not keep, and rounding is outside this model.
\<close>

section \<open>Properties of find_homography_RANSAC\<close>

lemma bindE_Inr: "bindE m f = Inr y \<longleftrightarrow> (\<exists>x. m = Inr x \<and> f x = Inr y)"
  by (cases m) (simp_all add: bindE_def)

lemma ransac_trial_count:
  assumes "ransac_trial svd choice pts1 pts2 thresh g = Inr ((H, n, e), g')"
  shows "count_homography_inliers H pts1 pts2 thresh = Inr (n, e)"
  using assms unfolding ransac_trial_def
  by (auto simp: bindE_Inr split: prod.splits)

lemma ransac_body_Inr:
  "ransac_body svd choice pts1 pts2 thresh (b, g) = Inr (b', g') \<longleftrightarrow>
    (\<exists>t. ransac_trial svd choice pts1 pts2 thresh g = Inr (t, g') \<and> b' = ransac_update b t)"
  unfolding ransac_body_def by (auto simp: bindE_Inr)

lemma ransac_update_cases:
  "ransac_update b (H, n, e) = (if fst (snd b) < n then (Some H, n, Some e) else b)"
  by (cases b) (simp add: ransac_update_def)

lemma ransac_update_mono: "fst (snd b) \<le> fst (snd (ransac_update b t))"
  by (cases t) (simp add: ransac_update_cases)

lemma ransac_body_mono:
  assumes "ransac_body svd choice pts1 pts2 thresh s = Inr s'"
  shows "fst (snd (fst s)) \<le> fst (snd (fst s'))"
proof -
  obtain b g where s: "s = (b, g)" by (cases s)
  obtain b' g' where s': "s' = (b', g')" by (cases s')
  from assms show ?thesis
    unfolding s s' ransac_body_Inr by (auto simp: ransac_update_mono)
qed

lemma ransac_loop_mono:
  "ransac_loop svd choice pts1 pts2 thresh k s = Inr s' \<Longrightarrow>
    fst (snd (fst s)) \<le> fst (snd (fst s'))"
proof (induction k arbitrary: s)
  case 0
  then show ?case by simp
next
  case (Suc k)
  from Suc.prems obtain s1 where b: "ransac_body svd choice pts1 pts2 thresh s = Inr s1"
    and l: "ransac_loop svd choice pts1 pts2 thresh k s1 = Inr s'"
    by (auto simp: bindE_Inr)
  from ransac_body_mono [OF b] Suc.IH [OF l] show ?case by simp
qed

lemma ransac_loop_add:
  "ransac_loop svd choice pts1 pts2 thresh (i + j) s =
     bindE (ransac_loop svd choice pts1 pts2 thresh i s) (ransac_loop svd choice pts1 pts2 thresh j)"
proof (induction i arbitrary: s)
  case 0
  then show ?case by (simp add: bindE_def)
next
  case (Suc i)
  then show ?case
    by (cases "ransac_body svd choice pts1 pts2 thresh s") (simp_all add: bindE_def)
qed

text \<open>
  C3. In one iteration the best-so-far triple is replaced by the trial's triple exactly
  when the trial's inlier count is strictly greater than the best-so-far count, and is
  kept otherwise (also on a tie). Consequently, of two states of the loop of one run,
  after \<open>i\<close> and after \<open>j \<ge> i\<close> iterations, the later one has the greater or equal count.
\<close>

theorem ransac_best_count_monotone:
  "(\<forall>b g b' g'. ransac_body svd choice pts1 pts2 thresh (b, g) = Inr (b', g') \<longrightarrow>
      (\<exists>H n e. ransac_trial svd choice pts1 pts2 thresh g = Inr ((H, n, e), g')
         \<and> b' = (if fst (snd b) < n then (Some H, n, Some e) else b)))
   \<and> (\<forall>i j bi gi bj gj.
        ransac_loop svd choice pts1 pts2 thresh i ((None, 0, None), g0) = Inr (bi, gi)
        \<and> ransac_loop svd choice pts1 pts2 thresh j ((None, 0, None), g0) = Inr (bj, gj)
        \<and> i \<le> j
        \<longrightarrow> fst (snd bi) \<le> fst (snd bj))"
proof (intro conjI allI impI)
  fix b g b' g'
  assume "ransac_body svd choice pts1 pts2 thresh (b, g) = Inr (b', g')"
  then obtain t where t: "ransac_trial svd choice pts1 pts2 thresh g = Inr (t, g')"
    and b': "b' = ransac_update b t"
    unfolding ransac_body_Inr by blast
  obtain H n e where "t = (H, n, e)" by (cases t)
  with t b' show "\<exists>H n e. ransac_trial svd choice pts1 pts2 thresh g = Inr ((H, n, e), g')
         \<and> b' = (if fst (snd b) < n then (Some H, n, Some e) else b)"
    by (auto simp: ransac_update_cases)
next
  fix i j :: nat and bi gi bj gj
  assume a: "ransac_loop svd choice pts1 pts2 thresh i ((None, 0, None), g0) = Inr (bi, gi)
        \<and> ransac_loop svd choice pts1 pts2 thresh j ((None, 0, None), g0) = Inr (bj, gj)
        \<and> i \<le> j"
  then obtain d where j: "j = i + d" by (auto simp: le_iff_add)
  from a have "ransac_loop svd choice pts1 pts2 thresh d (bi, gi) = Inr (bj, gj)"
    unfolding j ransac_loop_add by (auto simp: bindE_def)
  from ransac_loop_mono [OF this] show "fst (snd bi) \<le> fst (snd bj)" by simp
qed


lemma take_cols_ok:
  assumes "list_all (\<lambda>i. i < npoints pts) idx"
  obtains s where "take_cols pts idx = Inr s" and "npoints s = length idx" and "wf_points s"
  using assms by (simp add: take_cols_def npoints_def wf_points_def)

lemma choice_okD:
  assumes "choice_ok choice" and "k \<le> n"
  obtains idx g' where "choice n k g = Inr (idx, g')" and "length idx = k" and "distinct idx"
    and "list_all (\<lambda>i. i < n) idx"
proof -
  from assms(1) have "if k \<le> n
        then (\<exists>idx g'. choice n k g = Inr (idx, g') \<and> length idx = k \<and> distinct idx
                \<and> list_all (\<lambda>i. i < n) idx)
        else choice n k g = Inl ValueError"
    unfolding choice_ok_def by blast
  with assms(2) show ?thesis using that by auto
qed

lemma find_homography_total:
  assumes "svd_ok svd" and "0 < npoints s1" and "npoints s1 \<le> npoints s2"
  obtains H where "find_homography svd s1 s2 = Inr H" and "is_shape 3 3 H"
proof -
  from assms(1,2) obtain Vh where Vh: "svd (spec_design_matrix s1 s2) = Inr Vh" "is_shape 9 9 Vh"
    by (rule svd_ok_result)
  from last_shape9 [OF Vh(2)] Vh(1) assms(3)
  have "find_homography svd s1 s2 = Inr (reshape33 (last Vh))"
    and "is_shape 3 3 (reshape33 (last Vh))"
    by (simp_all add: find_homography_result bindE_def reshape33_shape)
  then show ?thesis using that by blast
qed

text \<open>
  Under the contracts of the two library routines, a trial on well-formed arrays of the
  same length \<open>N \<ge> 4\<close> completes: it draws 4 pairwise distinct indices below \<open>N\<close> and
  scores a \<open>3 \<times> 3\<close> matrix on the full arrays.
\<close>

lemma ransac_trial_total:
  assumes "choice_ok choice" and "svd_ok svd"
    and "wf_points pts1" and "wf_points pts2"
    and "npoints pts2 = npoints pts1" and "4 \<le> npoints pts1"
  obtains idx g' H where "choice (npoints pts1) 4 g = Inr (idx, g')"
    and "length idx = 4" and "distinct idx" and "list_all (\<lambda>i. i < npoints pts1) idx"
    and "is_shape 3 3 H"
    and "ransac_trial svd choice pts1 pts2 thresh g =
      Inr ((H, below_count (errors_of H pts1 pts2) (thresh\<^sup>2), errors_of H pts1 pts2), g')"
proof -
  from assms(1,6) obtain idx g' where c: "choice (npoints pts1) 4 g = Inr (idx, g')"
    and idx: "length idx = 4" "distinct idx" "list_all (\<lambda>i. i < npoints pts1) idx"
    by (rule choice_okD)
  from idx(3) obtain s1 where s1: "take_cols pts1 idx = Inr s1" "npoints s1 = length idx"
    by (rule take_cols_ok)
  from idx(3) assms(5) have "list_all (\<lambda>i. i < npoints pts2) idx" by simp
  then obtain s2 where s2: "take_cols pts2 idx = Inr s2" "npoints s2 = length idx"
    by (rule take_cols_ok)
  from s1(2) s2(2) idx(1) have "0 < npoints s1" "npoints s1 \<le> npoints s2" by simp_all
  with assms(2) obtain H where H: "find_homography svd s1 s2 = Inr H" "is_shape 3 3 H"
    by (rule find_homography_total)
  have "count_homography_inliers H pts1 pts2 thresh =
      Inr (below_count (errors_of H pts1 pts2) (thresh\<^sup>2), errors_of H pts1 pts2)"
    unfolding below_count_sum [symmetric]
    using H(2) assms(3,4,5) by (rule count_errors)
  with c s1(1) s2(1) H(1)
  have "ransac_trial svd choice pts1 pts2 thresh g =
      Inr ((H, below_count (errors_of H pts1 pts2) (thresh\<^sup>2), errors_of H pts1 pts2), g')"
    by (simp add: ransac_trial_def bindE_def)
  with c idx H(2) show ?thesis using that by blast
qed

lemma ransac_body_total:
  assumes "choice_ok choice" and "svd_ok svd"
    and "wf_points pts1" and "wf_points pts2"
    and "npoints pts2 = npoints pts1" and "4 \<le> npoints pts1"
  shows "\<exists>s'. ransac_body svd choice pts1 pts2 thresh s = Inr s'"
proof -
  from assms obtain t g' where "ransac_trial svd choice pts1 pts2 thresh (snd s) = Inr (t, g')"
    using ransac_trial_total [of choice svd pts1 pts2 "snd s" thresh] by metis
  then have "ransac_body svd choice pts1 pts2 thresh s = Inr (ransac_update (fst s) t, g')"
    by (simp add: ransac_body_def bindE_def)
  then show ?thesis by blast
qed

lemma ransac_loop_total:
  assumes "choice_ok choice" and "svd_ok svd"
    and "wf_points pts1" and "wf_points pts2"
    and "npoints pts2 = npoints pts1" and "4 \<le> npoints pts1"
  shows "\<exists>s'. ransac_loop svd choice pts1 pts2 thresh k s = Inr s'"
proof (induction k arbitrary: s)
  case 0
  then show ?case by simp
next
  case (Suc k)
  from ransac_body_total [OF assms] obtain s1
    where "ransac_body svd choice pts1 pts2 thresh s = Inr s1" by blast
  with Suc.IH [of s1] show ?case by (simp add: bindE_def)
qed


lemma rot_inj_le:
  fixes g i j n :: nat
  assumes "(g + i) mod n = (g + j) mod n" and "i \<le> j" and "j < n"
  shows "i = j"
proof (rule ccontr)
  assume "i \<noteq> j"
  with assms(2) have pos: "0 < j - i" by simp
  from assms(1,2) have "n dvd (g + j) - (g + i)"
    by (metis add_le_cancel_left mod_eq_dvd_iff_nat)
  then have "n dvd j - i" by simp
  moreover from assms(3) have "j - i < n" by simp
  ultimately show False using pos nat_dvd_not_less by blast
qed

lemma rot_inj:
  fixes g i j n :: nat
  assumes "(g + i) mod n = (g + j) mod n" and "i < n" and "j < n"
  shows "i = j"
proof (cases "i \<le> j")
  case True
  with assms show ?thesis by (auto intro: rot_inj_le)
next
  case False
  then have "j \<le> i" by simp
  with assms(1) [symmetric] have "j = i" using assms(2) by (rule rot_inj_le)
  then show ?thesis by simp
qed

lemma choice_rot_ok: "choice_ok choice_rot"
proof -
  have "distinct (map (\<lambda>i. (g + i) mod n) [0..<k])" if "k \<le> n" for g n k :: nat
    using that by (auto simp: distinct_map inj_on_def dest: rot_inj)
  moreover have "list_all (\<lambda>i. i < n) (map (\<lambda>i. (g + i) mod n) [0..<k])"
    if "k \<le> n" "0 < k" for g n k :: nat
    using that by (simp add: list_all_iff)
  ultimately show ?thesis
    unfolding choice_ok_def choice_rot_def
    by (auto simp: list_all_iff)
qed


subsection \<open>The example run\<close>

lemma example_points:
  "wf_points square_pts" "wf_points origin_pts" "npoints square_pts = 4"
  "npoints origin_pts = 4"
  by (simp_all add: wf_points_def npoints_def square_pts_def origin_pts_def)

lemma find_homography_svd_unit:
  "npoints s1 \<le> npoints s2 \<Longrightarrow> find_homography svd_unit s1 s2 = Inr H_unit"
proof -
  have "length (last unit9) = 9" by (simp add: last_unit9)
  moreover assume "npoints s1 \<le> npoints s2"
  ultimately show ?thesis
    by (simp add: find_homography_result svd_unit_def bindE_def reshape_unit unit9_ne)
qed

lemma upt_4: "[0..<4] = [0, 1, 2, 3]"
  by (simp add: upt_rec)

lemma example_errors:
  "errors_of H_unit square_pts origin_pts = [Some 0, Some 0, Some 0, Some 0]"
  unfolding errors_of_def example_points(3) upt_4
  by (simp add: reprojection_error_def project_def point_def H_unit_def square_pts_def
      origin_pts_def)

lemma H_unit_shape: "is_shape 3 3 H_unit"
  by (simp add: H_unit_def is_shape_def)

lemma example_count:
  "count_homography_inliers H_unit square_pts origin_pts thresh =
     Inr (below_count [Some 0, Some 0, Some 0, Some 0] (thresh\<^sup>2),
          [Some 0, Some 0, Some 0, Some 0])"
proof -
  have "npoints origin_pts = npoints square_pts" by (simp add: example_points)
  with H_unit_shape example_points(1,2)
  have "count_homography_inliers H_unit square_pts origin_pts thresh =
    Inr (sum_list (map (\<lambda>e. if fless e (thresh\<^sup>2) then 1 else 0)
           (errors_of H_unit square_pts origin_pts)),
         errors_of H_unit square_pts origin_pts)"
    by (rule count_errors)
  then show ?thesis unfolding below_count_sum example_errors .
qed

lemma example_trial:
  "ransac_trial svd_unit choice_rot square_pts origin_pts thresh g =
     Inr ((H_unit, below_count [Some 0, Some 0, Some 0, Some 0] (thresh\<^sup>2),
           [Some 0, Some 0, Some 0, Some 0]), Suc g)"
proof -
  let ?idx = "map (\<lambda>i. (g + i) mod 4) [0..<4]"
  have c: "choice_rot (npoints square_pts) 4 g = Inr (?idx, Suc g)"
    by (simp add: choice_rot_def example_points)
  have "list_all (\<lambda>i. i < npoints square_pts) ?idx" "list_all (\<lambda>i. i < npoints origin_pts) ?idx"
    by (simp_all add: list_all_iff example_points)
  then obtain s1 s2 where s: "take_cols square_pts ?idx = Inr s1" "npoints s1 = length ?idx"
    "take_cols origin_pts ?idx = Inr s2" "npoints s2 = length ?idx"
    by (metis take_cols_ok)
  then have "find_homography svd_unit s1 s2 = Inr H_unit"
    by (simp add: find_homography_svd_unit)
  with c s(1,3) show ?thesis
    by (simp add: ransac_trial_def bindE_def example_count)
qed

lemma example_below_count:
  "below_count [Some 0, Some 0, Some 0, Some 0] 1 = 4"
  "below_count [Some 0, Some 0, Some 0, Some 0] 0 = 0"
  by (simp_all add: below_count_def fless_def)

lemma example_body:
  "ransac_body svd_unit choice_rot square_pts origin_pts 1 (b, g) =
     Inr (if fst (snd b) < 4 then (Some H_unit, 4, Some [Some 0, Some 0, Some 0, Some 0]) else b,
          Suc g)"
  by (simp add: ransac_body_def example_trial example_below_count bindE_def ransac_update_cases)

lemma example_loop_1:
  "ransac_loop svd_unit choice_rot square_pts origin_pts 1 (Suc 0) ((None, 0, None), 0) =
     Inr ((Some H_unit, 4, Some [Some 0, Some 0, Some 0, Some 0]), 1)"
  by (simp add: example_body bindE_def)

lemma example_loop_2:
  "ransac_loop svd_unit choice_rot square_pts origin_pts 1 (Suc (Suc 0)) ((None, 0, None), 0) =
     Inr ((Some H_unit, 4, Some [Some 0, Some 0, Some 0, Some 0]), 2)"
  by (simp add: example_body bindE_def)

theorem ransac_best_count_monotone_witness:
  "ransac_body svd_unit choice_rot square_pts origin_pts 1
       ((Some H_unit, 4, Some [Some 0, Some 0, Some 0, Some 0]), 1) =
     Inr ((Some H_unit, 4, Some [Some 0, Some 0, Some 0, Some 0]), 2)
   \<and> (\<exists>H n e. ransac_trial svd_unit choice_rot square_pts origin_pts 1 1 = Inr ((H, n, e), 2)
        \<and> (Some H_unit, 4, Some [Some 0, Some 0, Some 0, Some 0]) =
           (if (4::nat) < n then (Some H, n, Some e)
            else (Some H_unit, 4, Some [Some 0, Some 0, Some 0, Some 0])))
   \<and> ransac_loop svd_unit choice_rot square_pts origin_pts 1 (Suc 0) ((None, 0, None), 0) =
       Inr ((Some H_unit, 4, Some [Some 0, Some 0, Some 0, Some 0]), 1)
   \<and> ransac_loop svd_unit choice_rot square_pts origin_pts 1 (Suc (Suc 0)) ((None, 0, None), 0) =
       Inr ((Some H_unit, 4, Some [Some 0, Some 0, Some 0, Some 0]), 2)
   \<and> fst (snd (Some H_unit, 4::nat, Some [Some (0::real), Some 0, Some 0, Some 0]))
       \<le> fst (snd (Some H_unit, 4::nat, Some [Some (0::real), Some 0, Some 0, Some 0]))"
proof -
  let ?b = "(Some H_unit, 4::nat, Some [Some (0::real), Some 0, Some 0, Some 0])"
  have body: "ransac_body svd_unit choice_rot square_pts origin_pts 1 (?b, 1) = Inr (?b, 2)"
    by (simp add: example_body)
  note m = ransac_best_count_monotone [of svd_unit choice_rot square_pts origin_pts 1 0]
  from m body have "\<exists>H n e. ransac_trial svd_unit choice_rot square_pts origin_pts 1 1 = Inr ((H, n, e), 2)
        \<and> ?b = (if fst (snd ?b) < n then (Some H, n, Some e) else ?b)"
    by blast
  moreover from m example_loop_1 example_loop_2
  have "fst (snd ?b) \<le> fst (snd ?b)" by simp
  ultimately show ?thesis using body example_loop_1 example_loop_2 by simp
qed


subsection \<open>The returned triple\<close>

lemma consistent_best_init: "consistent_best pts1 pts2 thresh (None, 0, None)"
  by (simp add: consistent_best_def)

lemma consistent_best_update:
  assumes "consistent_best pts1 pts2 thresh b"
    and "count_homography_inliers H pts1 pts2 thresh = Inr (n, e)"
  shows "consistent_best pts1 pts2 thresh (ransac_update b (H, n, e))"
  using assms by (simp add: ransac_update_cases consistent_best_def)

lemma consistent_best_body:
  assumes "ransac_body svd choice pts1 pts2 thresh s = Inr s'"
    and "consistent_best pts1 pts2 thresh (fst s)"
  shows "consistent_best pts1 pts2 thresh (fst s')"
proof -
  obtain b g where s: "s = (b, g)" by (cases s)
  obtain b' g' where s': "s' = (b', g')" by (cases s')
  from assms(1) obtain t where t: "ransac_trial svd choice pts1 pts2 thresh g = Inr (t, g')"
    and b': "b' = ransac_update b t"
    unfolding s s' ransac_body_Inr by blast
  obtain H n e where teq: "t = (H, n, e)" by (cases t)
  from t have "count_homography_inliers H pts1 pts2 thresh = Inr (n, e)"
    unfolding teq by (rule ransac_trial_count)
  with assms(2) show ?thesis
    unfolding s s' b' teq by (simp add: consistent_best_update)
qed

lemma consistent_best_loop:
  "ransac_loop svd choice pts1 pts2 thresh k s = Inr s' \<Longrightarrow>
    consistent_best pts1 pts2 thresh (fst s) \<Longrightarrow> consistent_best pts1 pts2 thresh (fst s')"
proof (induction k arbitrary: s)
  case 0
  then show ?case by simp
next
  case (Suc k)
  from Suc.prems(1) obtain s1 where b: "ransac_body svd choice pts1 pts2 thresh s = Inr s1"
    and l: "ransac_loop svd choice pts1 pts2 thresh k s1 = Inr s'"
    by (auto simp: bindE_Inr)
  from b Suc.prems(2) have "consistent_best pts1 pts2 thresh (fst s1)"
    by (rule consistent_best_body)
  with l show ?case by (rule Suc.IH)
qed

text \<open>
  C10. When the function returns a matrix \<open>Hbest\<close> with the count \<open>n\<close> and the errors \<open>e\<close>,
  then \<open>e\<close> is an error vector and \<open>(n, e)\<close> is what the scorer returns for \<open>Hbest\<close> on the
  full point arrays and the threshold of the call.
\<close>

theorem ransac_result_consistent:
  assumes "find_homography_RANSAC svd choice pts1 pts2 niter thresh g
             = Inr ((Some Hbest, n, e), g')"
  shows "\<exists>errors. e = Some errors
           \<and> count_homography_inliers Hbest pts1 pts2 thresh = Inr (n, errors)"
proof -
  from assms have "consistent_best pts1 pts2 thresh (fst ((Some Hbest, n, e), g'))"
    unfolding find_homography_RANSAC_def
    by (rule consistent_best_loop) (simp add: consistent_best_init)
  then show ?thesis
    by (cases e) (simp_all add: consistent_best_def)
qed

theorem ransac_result_consistent_witness:
  "find_homography_RANSAC svd_unit choice_rot square_pts origin_pts 2 1 0 =
     Inr ((Some H_unit, 4, Some [Some 0, Some 0, Some 0, Some 0]), 2)
   \<and> (\<exists>errors. Some [Some 0, Some 0, Some 0, Some 0] = Some errors
         \<and> count_homography_inliers H_unit square_pts origin_pts 1 = Inr (4, errors))"
proof -
  have "nat 2 = Suc (Suc 0)" by simp
  then have r: "find_homography_RANSAC svd_unit choice_rot square_pts origin_pts 2 1 0 =
     Inr ((Some H_unit, 4, Some [Some 0, Some 0, Some 0, Some 0]), 2)"
    unfolding find_homography_RANSAC_def by (simp only: example_loop_2)
  from ransac_result_consistent [OF r] r show ?thesis by blast
qed




subsection \<open>The samples of a run\<close>

lemma logged_ok:
  assumes "choice_ok choice"
  shows "choice_ok (logged choice)"
  unfolding choice_ok_def
proof (intro allI)
  fix n k and s :: "'a \<times> nat list list"
  show "if k \<le> n
        then (\<exists>idx g'. logged choice n k s = Inr (idx, g') \<and> length idx = k \<and> distinct idx
                \<and> list_all (\<lambda>i. i < n) idx)
        else logged choice n k s = Inl ValueError"
  proof (cases "k \<le> n")
    case True
    with assms obtain idx g' where "choice n k (fst s) = Inr (idx, g')" "length idx = k"
      "distinct idx" "list_all (\<lambda>i. i < n) idx"
      by (rule choice_okD)
    with True show ?thesis by (simp add: logged_def bindE_def)
  next
    case False
    with assms have "choice n k (fst s) = Inl ValueError"
      unfolding choice_ok_def by (metis (full_types))
    with False show ?thesis by (simp add: logged_def bindE_def)
  qed
qed

lemma logged_Inr:
  "logged choice n k s = Inr (idx, s') \<Longrightarrow> snd s' = snd s @ [idx]"
  by (auto simp: logged_def bindE_Inr)

text \<open>
  Each iteration makes one draw, of 4 pairwise distinct indices below the number of
  points, so \<open>k\<close> iterations append \<open>k\<close> such samples to the record.
\<close>

lemma logged_loop:
  assumes "choice_ok choice" and "svd_ok svd"
    and "wf_points pts1" and "wf_points pts2"
    and "npoints pts2 = npoints pts1" and "4 \<le> npoints pts1"
  shows "\<exists>b' g' new.
      ransac_loop svd (logged choice) pts1 pts2 thresh k (b, (g, draws)) = Inr (b', (g', draws @ new))
      \<and> length new = k
      \<and> list_all (\<lambda>idx. length idx = 4 \<and> distinct idx
                      \<and> list_all (\<lambda>i. i < npoints pts1) idx) new"
proof (induction k arbitrary: b g draws)
  case 0
  show ?case by (intro exI [of _ b] exI [of _ g] exI [of _ "[]"]) simp
next
  case (Suc k)
  from logged_ok [OF assms(1)] assms(2-6)
  obtain idx s1 H where c: "logged choice (npoints pts1) 4 (g, draws) = Inr (idx, s1)"
    and idx: "length idx = 4" "distinct idx" "list_all (\<lambda>i. i < npoints pts1) idx"
    and t: "ransac_trial svd (logged choice) pts1 pts2 thresh (g, draws) =
      Inr ((H, below_count (errors_of H pts1 pts2) (thresh\<^sup>2), errors_of H pts1 pts2), s1)"
    by (rule ransac_trial_total)
  from logged_Inr [OF c] obtain g1 where s1: "s1 = (g1, draws @ [idx])"
    by (cases s1) simp
  let ?b1 = "ransac_update b (H, below_count (errors_of H pts1 pts2) (thresh\<^sup>2),
    errors_of H pts1 pts2)"
  from t have body: "ransac_body svd (logged choice) pts1 pts2 thresh (b, (g, draws)) =
      Inr (?b1, (g1, draws @ [idx]))"
    by (simp add: ransac_body_def bindE_def s1)
  from Suc.IH [of ?b1 g1 "draws @ [idx]"] obtain b' g' new
    where l: "ransac_loop svd (logged choice) pts1 pts2 thresh k (?b1, (g1, draws @ [idx])) =
        Inr (b', (g', (draws @ [idx]) @ new))"
      and new: "length new = k" "list_all (\<lambda>idx. length idx = 4 \<and> distinct idx
                      \<and> list_all (\<lambda>i. i < npoints pts1) idx) new"
    by blast
  from body l have "ransac_loop svd (logged choice) pts1 pts2 thresh (Suc k) (b, (g, draws)) =
      Inr (b', (g', draws @ (idx # new)))"
    by (simp add: bindE_def)
  moreover from new idx have "length (idx # new) = Suc k"
    "list_all (\<lambda>idx. length idx = 4 \<and> distinct idx
                      \<and> list_all (\<lambda>i. i < npoints pts1) idx) (idx # new)"
    by simp_all
  ultimately show ?case by blast
qed

text \<open>
  C9. On well-formed point arrays of the same length \<open>N \<ge> 4\<close>, with library routines
  that keep their contracts, the function returns, and the record of the draws it made
  has exactly \<open>niter\<close> entries, one for each iteration of the loop; every entry is a
  sample of exactly 4 pairwise distinct indices below \<open>N\<close>.
\<close>

theorem ransac_samples:
  assumes "choice_ok choice" and "svd_ok svd"
    and "wf_points pts1" and "wf_points pts2"
    and "npoints pts2 = npoints pts1" and "4 \<le> npoints pts1"
  shows "\<exists>b g' draws.
      find_homography_RANSAC svd (logged choice) pts1 pts2 niter thresh (g, []) = Inr (b, (g', draws))
      \<and> length draws = nat niter
      \<and> list_all (\<lambda>idx. length idx = 4 \<and> distinct idx
                      \<and> list_all (\<lambda>i. i < npoints pts1) idx) draws"
  using logged_loop [OF assms, of thresh "nat niter" "(None, 0, None)" g "[]"]
  by (simp add: find_homography_RANSAC_def)

theorem ransac_samples_witness:
  "\<exists>b g' draws.
      find_homography_RANSAC svd_unit (logged choice_rot) square_pts origin_pts 2 1 (0, [])
        = Inr (b, (g', draws))
      \<and> length draws = 2
      \<and> list_all (\<lambda>idx. length idx = 4 \<and> distinct idx \<and> list_all (\<lambda>i. i < 4) idx) draws"
proof -
  have "npoints origin_pts = npoints square_pts" "4 \<le> npoints square_pts"
    by (simp_all add: example_points)
  from ransac_samples [OF choice_rot_ok svd_unit_ok example_points(1,2) this,
      where g = 0 and niter = 2 and thresh = 1]
  show ?thesis by (simp add: example_points)
qed


text \<open>
  With fewer than 4 points the first draw already fails: the sampling routine raises
  ValueError, and so does the function whenever it has an iteration to run.
\<close>

lemma ransac_small_population:
  assumes "choice_ok choice" and "npoints pts1 < 4" and "0 < niter"
  shows "find_homography_RANSAC svd choice pts1 pts2 niter thresh g = Inl ValueError"
proof -
  from assms(1,2) have "choice (npoints pts1) 4 g = Inl ValueError"
    unfolding choice_ok_def by (metis (full_types) not_less)
  then have "ransac_body svd choice pts1 pts2 thresh ((None, 0, None), g) = Inl ValueError"
    by (simp add: ransac_body_def ransac_trial_def bindE_def)
  moreover from assms(3) obtain k where "nat niter = Suc k"
    by (cases "nat niter") simp_all
  ultimately show ?thesis
    by (simp add: find_homography_RANSAC_def bindE_def)
qed

end
